theory Spec2Isabelle
  imports Complex_Main "HOL-Library.Multiset" "HOL-Library.AList"
    "HOL-Library.Char_ord" "HOL-Library.List_Lexorder"
begin

section \<open>Data model\<close>

text \<open>
  The program (\<^verbatim>\<open>Code.py\<close>, class \<^verbatim>\<open>StockAnalysis\<close>) keeps two pandas tables:
  the daily table (columns \<^verbatim>\<open>Stock Name\<close>, \<^verbatim>\<open>Date\<close>, \<^verbatim>\<open>Volume\<close>) and the intraday
  table (columns \<^verbatim>\<open>Stock Name\<close>, \<^verbatim>\<open>Date\<close>, \<^verbatim>\<open>Time\<close>, \<^verbatim>\<open>Last Traded Quantity\<close>).
  A table is the list of its rows, in row order.

  A date is the number \<open>yyyymmdd\<close> (so that \<open><\<close> is the chronological order of
  \<^verbatim>\<open>pd.Timestamp\<close>), a time of day is the number of seconds since midnight (the order
  of \<^verbatim>\<open>datetime.time\<close>). Volumes and quantities are the integers of the CSV columns.
\<close>

type_synonym date = nat
type_synonym time_of_day = nat

record daily_record =
  Stock_Name :: string
  Date :: date
  Volume :: int

record tick =
  iStock_Name :: string
  iDate :: date
  Time :: time_of_day
  Last_Traded_Quantity :: int

text \<open>The two date literals \<^verbatim>\<open>'19-04-2024'\<close> and \<^verbatim>\<open>'22-04-2024'\<close> of the program, which
  serve as dictionary keys, and \<^verbatim>\<open>pd.Timestamp\<close> on them.\<close>

datatype ref_date = Apr19 | Apr22

fun Timestamp :: "ref_date \<Rightarrow> date" where
  "Timestamp Apr19 = 20240419"
| "Timestamp Apr22 = 20240422"

text \<open>A float64 value: either NaN or a number, the number held as the real it denotes.
  Every comparison with NaN is false.\<close>

datatype float = NaN | Num real

fun gt :: "int \<Rightarrow> float \<Rightarrow> bool" where
  "gt c NaN = False"
| "gt c (Num a) = (a < real_of_int c)"

datatype error = ValueError

text \<open>The object state: the attributes of \<^verbatim>\<open>self\<close> set by \<^verbatim>\<open>__init__\<close>.\<close>

record StockAnalysis =
  daily_data :: "daily_record list"
  intraday_data_19 :: "tick list"
  intraday_data_22 :: "tick list"
  intraday_data :: "tick list"

definition init :: "daily_record list \<Rightarrow> tick list \<Rightarrow> tick list \<Rightarrow> StockAnalysis" where
  "init daily i19 i22 =
     \<lparr>daily_data = daily, intraday_data_19 = i19, intraday_data_22 = i22,
      intraday_data = i19 @ i22\<rparr>"

section \<open>The pandas operations the program calls\<close>

text \<open>Division in float64. The quotient of two float64 values is the float64 nearest to
  the exact quotient, ties going to the even significand (IEEE 754 round-to-nearest-even).
  For integers \<open>p\<close> and \<open>q > 0\<close> that float64 holds exactly, the exact quotient is scaled by
  powers of two until it lies between \<open>2^52\<close> and \<open>2^53\<close>, rounded to an integer (the
  53-bit significand), and scaled back. Quotients here are far from the subnormal and
  overflow ranges, which are not modelled.\<close>

definition round_half_even :: "int \<Rightarrow> int \<Rightarrow> int" where
  "round_half_even p q =
     (let f = p div q; r = p mod q
      in if 2 * r < q then f else if q < 2 * r then f + 1 else if even f then f else f + 1)"

function scale :: "int \<Rightarrow> int \<Rightarrow> int \<Rightarrow> int \<times> int \<times> int" where
  "scale p q e =
     (if 0 < p \<and> 0 < q \<and> p < 2 ^ 52 * q then scale (2 * p) q (e - 1)
      else if 0 < p \<and> 0 < q \<and> 2 ^ 53 * q \<le> p then scale p (2 * q) (e + 1)
      else (p, q, e))"
  by pat_completeness auto
termination
  by (relation "measure (\<lambda>(p, q, e). if p < 2 ^ 52 * q then nat (2 ^ 52 * q - p)
                                      else nat (p - 2 ^ 53 * q + 1))") auto

definition float64_div :: "int \<Rightarrow> int \<Rightarrow> real" where
  "float64_div p q =
     (case scale \<bar>p\<bar> q 0 of (p', q', e) \<Rightarrow>
        real_of_int (sgn p * round_half_even p' q') * 2 powi e)"

text \<open>\<^verbatim>\<open>Series.mean()\<close> of an integer column: NaN on an empty column, otherwise the sum
  of the values, taken in float64, divided in float64 by their number. The sum is exact
  as long as the values are non-negative and their total is below \<open>2^53\<close>; the model
  takes the exact sum, so beyond that range it does not follow the rounding of the sum.\<close>

definition mean :: "int list \<Rightarrow> float" where
  "mean vs =
     (if vs = [] then NaN else Num (float64_div (sum_list vs) (int (length vs))))"

text \<open>\<^verbatim>\<open>Series.unique()\<close>: the distinct values in order of first appearance.\<close>

definition unique :: "'a list \<Rightarrow> 'a list" where
  "unique xs = rev (remdups (rev xs))"

text \<open>\<^verbatim>\<open>DataFrame.groupby('Stock Name')\<close>: one group per distinct key, the keys in
  ascending order, each group holding its rows in table order.\<close>

definition groupby :: "tick list \<Rightarrow> (string \<times> tick list) list" where
  "groupby tbl =
     map (\<lambda>k. (k, filter (\<lambda>t. iStock_Name t = k) tbl)) (sort (remdups (map iStock_Name tbl)))"

text \<open>\<^verbatim>\<open>Series.rolling(window=w, min_periods=1).sum()\<close>: the window of row \<open>i\<close> is
  the rows \<open>i + 1 - w .. i\<close>; the sum is kept as a running sum, the value entering the
  window added and the value leaving it removed. pandas keeps the sums in float64; they
  are whole numbers, which float64 holds exactly as long as the quantities are non-negative
  and their total is below \<open>2^53\<close>. The model keeps them as integers, so beyond that
  range it does not follow the rounding.\<close>

definition roll_step :: "nat \<Rightarrow> int list \<Rightarrow> nat \<Rightarrow> int \<times> int list \<Rightarrow> int \<times> int list" where
  "roll_step w values i st =
     (case st of (sum_x, output) \<Rightarrow>
        let sum_x = (if w \<le> i then sum_x - values ! (i - w) else sum_x);
            sum_x = sum_x + values ! i
        in (sum_x, output @ [sum_x]))"

definition rolling_sum :: "nat \<Rightarrow> int list \<Rightarrow> int list" where
  "rolling_sum w values = snd (fold (roll_step w values) [0..<length values] (0, []))"

text \<open>\<^verbatim>\<open>sort_values\<close> is called without a \<^verbatim>\<open>kind\<close>, that is with pandas' default
  sorting algorithm. Which rows it puts where among equal keys is decided inside the
  library, so the two sorts are parameters of the model, and what is known of them is
  their contract: the result is a rearrangement of the rows, ordered by the key.\<close>

definition sorts_by_Date_desc :: "(daily_record list \<Rightarrow> daily_record list) \<Rightarrow> bool" where
  "sorts_by_Date_desc srt \<longleftrightarrow>
     (\<forall>xs. mset (srt xs) = mset xs \<and> sorted_wrt (\<lambda>a b. Date b \<le> Date a) (srt xs))"

definition sorts_by_Time :: "(tick list \<Rightarrow> tick list) \<Rightarrow> bool" where
  "sorts_by_Time srt \<longleftrightarrow>
     (\<forall>xs. mset (srt xs) = mset xs \<and> sorted_wrt (\<lambda>a b. Time a \<le> Time b) (srt xs))"

text \<open>One pair of sorts that meets the contract (insertion sorts), used where a
  concrete input is evaluated.\<close>

definition sort_Date_desc :: "daily_record list \<Rightarrow> daily_record list" where
  "sort_Date_desc xs = rev (sort_key Date (rev xs))"

definition sort_Time :: "tick list \<Rightarrow> tick list" where
  "sort_Time xs = sort_key Time xs"

section \<open>The program\<close>

text \<open>\<^verbatim>\<open>calculate_30_day_avg\<close>.\<close>

definition calculate_30_day_avg ::
  "(daily_record list \<Rightarrow> daily_record list) \<Rightarrow> StockAnalysis \<Rightarrow> string \<Rightarrow> date \<Rightarrow> float" where
  "calculate_30_day_avg srt self stock_name target_date =
     (let filtered_data =
            filter (\<lambda>r. Stock_Name r = stock_name \<and> Date r < target_date) (daily_data self);
          filtered_data = take 30 (srt filtered_data)
      in mean (map Volume filtered_data))"

text \<open>\<^verbatim>\<open>get_avg_volumes\<close>: the dictionary is an association list in insertion order.\<close>

type_synonym avg_table = "((string \<times> ref_date) \<times> float) list"

definition get_avg_volumes ::
  "(daily_record list \<Rightarrow> daily_record list) \<Rightarrow> StockAnalysis \<Rightarrow> avg_table" where
  "get_avg_volumes srt self =
     fold (\<lambda>stock_name avg_volumes.
             AList.update (stock_name, Apr22)
               (calculate_30_day_avg srt self stock_name (Timestamp Apr22))
               (AList.update (stock_name, Apr19)
                  (calculate_30_day_avg srt self stock_name (Timestamp Apr19)) avg_volumes))
          (unique (map Stock_Name (daily_data self))) []"

text \<open>\<^verbatim>\<open>analyze_intraday_data\<close>, in the pieces of its loop body. A row of the
  per-stock, per-date frame is a tick with its \<^verbatim>\<open>cumulative_volume\<close>.\<close>

type_synonym rolling_row = "tick \<times> int"
type_synonym result_table = "((string \<times> ref_date) \<times> time_of_day option) list"

definition market_open :: time_of_day where
  "market_open = 9 * 3600 + 15 * 60"

text \<open>Lines 86 to 93: select the date, sort by time, add the rolling sum.\<close>

definition daily_stock_data ::
  "(tick list \<Rightarrow> tick list) \<Rightarrow> tick list \<Rightarrow> ref_date \<Rightarrow> rolling_row list" where
  "daily_stock_data srt stock_data d =
     (let rows = filter (\<lambda>t. iDate t = Timestamp d) stock_data;
          rows = srt rows
      in zip rows (rolling_sum 3600 (map Last_Traded_Quantity rows)))"

text \<open>Line 96: \<^verbatim>\<open>avg_volumes.get((stock_name, Date), 0)\<close>.\<close>

definition avg_volume_of :: "avg_table \<Rightarrow> string \<times> ref_date \<Rightarrow> float" where
  "avg_volume_of avg_volumes key =
     (case map_of avg_volumes key of Some v \<Rightarrow> v | None \<Rightarrow> Num 0)"

text \<open>Lines 99 and 112 to 115: the times of the rows above the average, and the
  first of them if there is one.\<close>

definition exceed_timestamp :: "rolling_row list \<Rightarrow> float \<Rightarrow> time_of_day list" where
  "exceed_timestamp rows avg_volume =
     map (\<lambda>r. Time (fst r)) (filter (\<lambda>r. gt (snd r) avg_volume) rows)"

definition first_exceed :: "rolling_row list \<Rightarrow> float \<Rightarrow> time_of_day option" where
  "first_exceed rows avg_volume =
     (case exceed_timestamp rows avg_volume of [] \<Rightarrow> None | t # _ \<Rightarrow> Some t)"

type_synonym loop_state = "rolling_row list list \<times> rolling_row list list \<times> result_table"

definition loop_body ::
  "(tick list \<Rightarrow> tick list) \<Rightarrow> avg_table \<Rightarrow> string \<Rightarrow> tick list \<Rightarrow> ref_date \<Rightarrow>
     loop_state \<Rightarrow> loop_state" where
  "loop_body srt avg_volumes stock_name stock_data d st =
     (case st of (all_rolling_data_19, all_rolling_data_22, results) \<Rightarrow>
        let rows = daily_stock_data srt stock_data d;
            avg_volume = avg_volume_of avg_volumes (stock_name, d)
        in (if d = Apr19 then all_rolling_data_19 @ [rows] else all_rolling_data_19,
            if d = Apr22 then all_rolling_data_22 @ [rows] else all_rolling_data_22,
            AList.update (stock_name, d) (first_exceed rows avg_volume) results))"

text \<open>The inner loop, over the two dates, for one group of \<^verbatim>\<open>groupby\<close>.\<close>

definition date_loop ::
  "(tick list \<Rightarrow> tick list) \<Rightarrow> avg_table \<Rightarrow> string \<times> tick list \<Rightarrow> loop_state \<Rightarrow> loop_state" where
  "date_loop srt avg_volumes grp st =
     (case grp of (stock_name, stock_data) \<Rightarrow>
        fold (loop_body srt avg_volumes stock_name stock_data) [Apr19, Apr22] st)"

text \<open>\<^verbatim>\<open>pd.concat\<close> of a list of frames raises \<^verbatim>\<open>ValueError\<close> on the empty list.\<close>

definition pd_concat :: "'a list list \<Rightarrow> error + 'a list" where
  "pd_concat frames = (if frames = [] then Inl ValueError else Inr (concat frames))"

text \<open>The whole method. It first replaces \<^verbatim>\<open>self.intraday_data\<close> by its rows at or
  after the market open, so it returns the new object state with its result.\<close>

definition analyze_intraday_data ::
  "(tick list \<Rightarrow> tick list) \<Rightarrow> StockAnalysis \<Rightarrow> avg_table \<Rightarrow>
     StockAnalysis \<times> (error + rolling_row list \<times> rolling_row list \<times> result_table)" where
  "analyze_intraday_data srt self avg_volumes =
     (let self = self\<lparr>intraday_data := filter (\<lambda>t. market_open \<le> Time t) (intraday_data self)\<rparr>;
          st = fold (date_loop srt avg_volumes) (groupby (intraday_data self)) ([], [], [])
      in case st of (all_rolling_data_19, all_rolling_data_22, results) \<Rightarrow>
           (self,
            case pd_concat all_rolling_data_19 of Inl e \<Rightarrow> Inl e
            | Inr all_rolling_data_19_df \<Rightarrow>
                (case pd_concat all_rolling_data_22 of Inl e \<Rightarrow> Inl e
                 | Inr all_rolling_data_22_df \<Rightarrow>
                     Inr (all_rolling_data_19_df, all_rolling_data_22_df, results))))"

text \<open>\<^verbatim>\<open>run_analysis\<close>, up to the tables handed to \<^verbatim>\<open>save_to_csv\<close>.\<close>

definition run_analysis ::
  "(daily_record list \<Rightarrow> daily_record list) \<Rightarrow> (tick list \<Rightarrow> tick list) \<Rightarrow> StockAnalysis \<Rightarrow>
     StockAnalysis \<times>
     (error + avg_table \<times> rolling_row list \<times> rolling_row list \<times> result_table)" where
  "run_analysis dsrt tsrt self =
     (let avg_volumes = get_avg_volumes dsrt self in
      case analyze_intraday_data tsrt self avg_volumes of
        (self, Inl e) \<Rightarrow> (self, Inl e)
      | (self, Inr (all_rolling_data_19_df, all_rolling_data_22_df, results)) \<Rightarrow>
          (self, Inr (avg_volumes, all_rolling_data_19_df, all_rolling_data_22_df, results)))"


section \<open>Auxiliary definitions and sample inputs\<close>

text \<open>The sum of the (at most \<open>w\<close>) values just before position \<open>n\<close>.\<close>

definition window_sum :: "nat \<Rightarrow> int list \<Rightarrow> nat \<Rightarrow> int" where
  "window_sum w vs n = (\<Sum>j = n - w..<n. vs ! j)"

definition tk :: "string \<Rightarrow> date \<Rightarrow> time_of_day \<Rightarrow> int \<Rightarrow> tick" where
  "tk s d t q = \<lparr>iStock_Name = s, iDate = d, Time = t, Last_Traded_Quantity = q\<rparr>"

definition three_ticks :: "tick list" where
  "three_ticks = [tk ''ABC'' 20240419 33302 7, tk ''ABC'' 20240419 33300 5, tk ''ABC'' 20240422 33300 9,
     tk ''ABC'' 20240419 33301 6]"



text \<open>Names for what the loop of \<^verbatim>\<open>analyze_intraday_data\<close> computes: the intraday
  rows at or after the market open, the frame of one stock and date, the crossing stored
  for a key, and the stores into \<^verbatim>\<open>results\<close> for a list of stocks.\<close>

definition open_ticks :: "StockAnalysis \<Rightarrow> tick list" where
  "open_ticks self = filter (\<lambda>t. market_open \<le> Time t) (intraday_data self)"

definition stock_frame ::
  "(tick list \<Rightarrow> tick list) \<Rightarrow> tick list \<Rightarrow> ref_date \<Rightarrow> string \<Rightarrow> rolling_row list" where
  "stock_frame srt tbl d k = daily_stock_data srt (filter (\<lambda>t. iStock_Name t = k) tbl) d"

definition crossing ::
  "(tick list \<Rightarrow> tick list) \<Rightarrow> avg_table \<Rightarrow> tick list \<Rightarrow> string \<times> ref_date \<Rightarrow> time_of_day option" where
  "crossing srt avg_volumes tbl key =
     first_exceed (stock_frame srt tbl (snd key) (fst key)) (avg_volume_of avg_volumes key)"

definition store_results ::
  "(string \<times> ref_date \<Rightarrow> 'v) \<Rightarrow> string list \<Rightarrow> ((string \<times> ref_date) \<times> 'v) list \<Rightarrow>
     ((string \<times> ref_date) \<times> 'v) list" where
  "store_results v ks results =
     fold (\<lambda>k results. AList.update (k, Apr22) (v (k, Apr22))
                         (AList.update (k, Apr19) (v (k, Apr19)) results)) ks results"

definition dr :: "string \<Rightarrow> date \<Rightarrow> int \<Rightarrow> daily_record" where
  "dr s d v = \<lparr>Stock_Name = s, Date = d, Volume = v\<rparr>"

text \<open>Object states as \<^verbatim>\<open>__init__\<close> leaves them, for the evaluations below: one tick
  before the market open only; one tick before and one at the open; a stock with ticks but
  no daily record beside a stock with a daily record but no ticks; a stock whose only
  daily record is dated on the first reference date.\<close>

definition preopen_state :: StockAnalysis where
  "preopen_state = init [dr ''ABC'' 20240418 100] [tk ''ABC'' 20240419 32400 5] []"

definition mixed_state :: StockAnalysis where
  "mixed_state = init [dr ''ABC'' 20240418 100]
     [tk ''ABC'' 20240419 32400 5, tk ''ABC'' 20240419 33300 7] []"

definition other_stock_state :: StockAnalysis where
  "other_stock_state = init [dr ''ABC'' 20240418 100] [tk ''XYZ'' 20240419 33300 500] []"

definition no_history_state :: StockAnalysis where
  "no_history_state = init [dr ''ABC'' 20240419 100] [tk ''ABC'' 20240419 33300 5] []"

text \<open>An object state with ticks out of time order, one of them before the market open.\<close>

definition sample_state :: StockAnalysis where
  "sample_state = init [dr ''ABC'' 20240418 100]
     [tk ''ABC'' 20240419 33302 7, tk ''ABC'' 20240419 33300 5, tk ''ABC'' 20240419 32400 4,
      tk ''ABC'' 20240419 33301 6]
     [tk ''ABC'' 20240422 33300 9]"

text \<open>The daily records \<^verbatim>\<open>calculate_30_day_avg\<close> selects before sorting.\<close>

definition prior_records :: "StockAnalysis \<Rightarrow> string \<Rightarrow> date \<Rightarrow> daily_record list" where
  "prior_records self stock_name target_date =
     filter (\<lambda>r. Stock_Name r = stock_name \<and> Date r < target_date) (daily_data self)"





section \<open>Division in float64\<close>

declare scale.simps [simp del]

lemma scale_inv:
  "0 < p \<Longrightarrow> 0 < q \<Longrightarrow> scale p q e = (p', q', e') \<Longrightarrow>
     0 < p' \<and> 0 < q' \<and> 2 ^ 52 * q' \<le> p' \<and> p' < 2 ^ 53 * q' \<and>
     real_of_int p' / real_of_int q' * 2 powi e' = real_of_int p / real_of_int q * 2 powi e"
proof (induction p q e rule: scale.induct)
  case (1 p q e)
  show ?case
  proof (cases "p < 2 ^ 52 * q")
    case True
    with 1 have s: "scale (2 * p) q (e - 1) = (p', q', e')"
      by (simp add: scale.simps[of p q e])
    have "0 < 2 * p" using "1.prems" by simp
    from "1.IH"(1)[OF _ this "1.prems"(2) s] True "1.prems"
    have IH: "0 < p' \<and> 0 < q' \<and> 2 ^ 52 * q' \<le> p' \<and> p' < 2 ^ 53 * q' \<and>
       real_of_int p' / real_of_int q' * 2 powi e' =
       real_of_int (2 * p) / real_of_int q * 2 powi (e - 1)"
      by simp
    have "real_of_int (2 * p) / real_of_int q * 2 powi (e - 1) =
          real_of_int p / real_of_int q * (2 powi (e - 1) * 2)"
      by simp
    also have "(2::real) powi (e - 1) * 2 = 2 powi e"
      by (simp add: power_int_minus_mult)
    finally show ?thesis using IH by simp
  next
    case False
    show ?thesis
    proof (cases "2 ^ 53 * q \<le> p")
      case True
      with False 1 have s: "scale p (2 * q) (e + 1) = (p', q', e')"
        by (simp add: scale.simps[of p q e])
      have "0 < 2 * q" using "1.prems" by simp
      from "1.IH"(2)[OF _ _ "1.prems"(1) this s] True False "1.prems"
      have IH: "0 < p' \<and> 0 < q' \<and> 2 ^ 52 * q' \<le> p' \<and> p' < 2 ^ 53 * q' \<and>
         real_of_int p' / real_of_int q' * 2 powi e' =
         real_of_int p / real_of_int (2 * q) * 2 powi (e + 1)"
        by simp
      have "real_of_int p / real_of_int (2 * q) * 2 powi (e + 1) =
            real_of_int p / real_of_int q * (2 powi (e + 1) / 2)"
        by simp
      also have "(2::real) powi (e + 1) / 2 = 2 powi e"
        by (simp add: power_int_add)
      finally show ?thesis using IH by simp
    next
      case F2: False
      with False have "scale p q e = (p, q, e)"
        by (simp add: scale.simps[of p q e])
      with "1.prems"(3) have eq: "p' = p" "q' = q" "e' = e"
        by simp_all
      show ?thesis
        unfolding eq using "1.prems"(1,2) False F2 by simp
    qed
  qed
qed


lemma round_half_even_dvd: "0 < q \<Longrightarrow> q dvd p \<Longrightarrow> round_half_even p q = p div q"
  by (auto simp: round_half_even_def Let_def)


lemma scale_dvd:
  "0 < p \<Longrightarrow> 0 < q \<Longrightarrow> q dvd p \<Longrightarrow> p < 2 ^ 53 * q \<Longrightarrow> scale p q e = (p', q', e') \<Longrightarrow>
     q' dvd p'"
proof (induction p q e rule: scale.induct)
  case (1 p q e)
  show ?case
  proof (cases "p < 2 ^ 52 * q")
    case True
    with 1 have s: "scale (2 * p) q (e - 1) = (p', q', e')"
      by (simp add: scale.simps[of p q e])
    have a: "0 < 2 * p" "q dvd 2 * p" "2 * p < 2 ^ 53 * q"
      using "1.prems" True by simp_all
    from "1.IH"(1)[OF _ a(1) "1.prems"(2) a(2) a(3) s] True "1.prems" show ?thesis
      by simp
  next
    case False
    with "1.prems"(4) have "scale p q e = (p, q, e)"
      by (simp add: scale.simps[of p q e])
    with "1.prems"(5) have "p' = p" "q' = q"
      by simp_all
    with "1.prems"(3) show ?thesis by simp
  qed
qed


lemma float64_div_exact:
  assumes "0 < q" and "q dvd p" and "0 \<le> p" and "p < 2 ^ 53 * q"
  shows "float64_div p q = real_of_int p / real_of_int q"
proof (cases "p = 0")
  case True
  then show ?thesis
    by (simp add: float64_div_def scale.simps[of 0 q 0] round_half_even_def)
next
  case False
  with assms(3) have pos: "0 < p" by simp
  obtain p' q' e' where s: "scale p q 0 = (p', q', e')"
    by (cases "scale p q 0")
  from scale_inv[OF pos assms(1) s]
  have inv: "0 < q'"
    and x: "real_of_int p' / real_of_int q' * 2 powi e' = real_of_int p / real_of_int q"
    by simp_all
  have d: "q' dvd p'"
    by (rule scale_dvd[OF pos assms(1,2,4) s])
  have "real_of_int (round_half_even p' q') = real_of_int p' / real_of_int q'"
    using round_half_even_dvd[OF inv d] d by (simp add: real_of_int_div)
  then show ?thesis
    using pos s x by (simp add: float64_div_def)
qed


lemma mean_Nil: "mean [] = NaN"
  by (simp add: mean_def)

lemma mean_exact:
  assumes "vs \<noteq> []" and "int (length vs) dvd sum_list vs" and "0 \<le> sum_list vs"
    and "sum_list vs < 2 ^ 53 * int (length vs)"
  shows "mean vs = Num (real_of_int (sum_list vs) / real (length vs))"
proof -
  have "0 < int (length vs)"
    using assms(1) by simp
  from float64_div_exact[OF this assms(2,3,4)] assms(1) show ?thesis
    by (simp add: mean_def)
qed

section \<open>The rolling sum\<close>

lemma window_sum_Suc:
  "window_sum w vs (Suc i) = (if w \<le> i then window_sum w vs i - vs ! (i - w) else window_sum w vs i) + vs ! i"
proof (cases "w \<le> i")
  case True
  show ?thesis
  proof (cases "w = 0")
    case True
    then show ?thesis by (simp add: window_sum_def)
  next
    case False
    with True have eq: "Suc i - w = Suc (i - w)" "i - w < i" by auto
    have "window_sum w vs i = vs ! (i - w) + (\<Sum>j = Suc (i - w)..<i. vs ! j)"
      unfolding window_sum_def using eq(2) by (simp add: sum.atLeast_Suc_lessThan)
    moreover have "window_sum w vs (Suc i) = (\<Sum>j = Suc (i - w)..<i. vs ! j) + vs ! i"
      unfolding window_sum_def using eq by simp
    ultimately show ?thesis using True by simp
  qed
next
  case False
  then have "Suc i - w = 0" "i - w = 0" by auto
  then show ?thesis using False by (simp add: window_sum_def)
qed

lemma fold_roll_step:
  "fold (roll_step w vs) [0..<n] (0, []) = (window_sum w vs n, map (\<lambda>i. window_sum w vs (Suc i)) [0..<n])"
proof (induction n)
  case 0
  show ?case by (simp add: window_sum_def)
next
  case (Suc n)
  have "fold (roll_step w vs) [0..<Suc n] (0, []) =
        roll_step w vs n (fold (roll_step w vs) [0..<n] (0, []))"
    by simp
  also have "\<dots> = roll_step w vs n (window_sum w vs n, map (\<lambda>i. window_sum w vs (Suc i)) [0..<n])"
    by (simp only: Suc)
  also have "\<dots> = (window_sum w vs (Suc n), map (\<lambda>i. window_sum w vs (Suc i)) [0..<Suc n])"
    by (simp add: roll_step_def Let_def window_sum_Suc[of w vs n])
  finally show ?case .
qed

lemma rolling_sum_eq: "rolling_sum w vs = map (\<lambda>i. window_sum w vs (Suc i)) [0..<length vs]"
  by (simp add: rolling_sum_def fold_roll_step)

lemma length_rolling_sum: "length (rolling_sum w vs) = length vs"
  by (simp add: rolling_sum_eq)





section \<open>The sorts and the frame of one stock and date\<close>

lemma sorts_by_Time_sort_Time: "sorts_by_Time sort_Time"
proof -
  have "sorted_wrt (\<lambda>a b. Time a \<le> Time b) (sort_key Time ys)" for ys :: "tick list"
    using sorted_sort_key[of Time ys] by (simp add: sorted_map)
  then show ?thesis
    by (simp add: sorts_by_Time_def sort_Time_def)
qed



lemma sorts_by_Time_mset: "sorts_by_Time srt \<Longrightarrow> mset (srt xs) = mset xs"
  by (simp add: sorts_by_Time_def)

lemma fst_daily_stock_data:
  "map fst (daily_stock_data srt stock_data d) = srt (filter (\<lambda>t. iDate t = Timestamp d) stock_data)"
  by (simp add: daily_stock_data_def Let_def length_rolling_sum)



lemma three_ticks_sorted:
  "sort_Time (filter (\<lambda>t. iDate t = Timestamp Apr19) three_ticks) =
     [tk ''ABC'' 20240419 33300 5, tk ''ABC'' 20240419 33301 6, tk ''ABC'' 20240419 33302 7]"
  by (simp add: three_ticks_def tk_def sort_Time_def)

lemma rolling_sum_three: "rolling_sum 3600 [5, 6, 7] = [5, 11, 18]"
  by (simp add: rolling_sum_def roll_step_def)

lemma three_rows:
  "daily_stock_data sort_Time three_ticks Apr19 =
     [(tk ''ABC'' 20240419 33300 5, 5), (tk ''ABC'' 20240419 33301 6, 11),
      (tk ''ABC'' 20240419 33302 7, 18)]"
  unfolding daily_stock_data_def Let_def three_ticks_sorted
  by (simp add: tk_def rolling_sum_three)

section \<open>Monotonicity of the cumulative volume\<close>


lemma sorts_by_Time_set: "sorts_by_Time srt \<Longrightarrow> set (srt xs) = set xs"
proof -
  assume "sorts_by_Time srt"
  then have "mset (srt xs) = mset xs"
    by (simp add: sorts_by_Time_def)
  then show ?thesis
    by (rule mset_eq_setD)
qed









section \<open>The cumulative volume of a row\<close>








section \<open>The first crossing\<close>

lemma first_exceed_Nil: "first_exceed [] avg = None"
  by (simp add: first_exceed_def exceed_timestamp_def)

lemma first_exceed_Cons:
  "first_exceed (r # rows) avg =
     (if gt (snd r) avg then Some (Time (fst r)) else first_exceed rows avg)"
  by (simp add: first_exceed_def exceed_timestamp_def)

lemma first_exceed_None_iff:
  "first_exceed rows avg = None \<longleftrightarrow> (\<forall>r \<in> set rows. \<not> gt (snd r) avg)"
  by (induction rows) (simp_all add: first_exceed_Nil first_exceed_Cons)

lemma first_exceed_Some_index:
  "first_exceed rows avg = Some t \<Longrightarrow>
     \<exists>i<length rows. t = Time (fst (rows ! i)) \<and> gt (snd (rows ! i)) avg \<and>
        (\<forall>j<i. \<not> gt (snd (rows ! j)) avg)"
proof (induction rows)
  case Nil
  then show ?case by (simp add: first_exceed_Nil)
next
  case (Cons r rows)
  show ?case
  proof (cases "gt (snd r) avg")
    case True
    with Cons.prems have "t = Time (fst r)"
      by (simp add: first_exceed_Cons)
    with True have "0 < length (r # rows) \<and> t = Time (fst ((r # rows) ! 0)) \<and>
        gt (snd ((r # rows) ! 0)) avg \<and> (\<forall>j<0. \<not> gt (snd ((r # rows) ! j)) avg)"
      by simp
    then show ?thesis by blast
  next
    case False
    with Cons.prems have "first_exceed rows avg = Some t"
      by (simp add: first_exceed_Cons)
    from Cons.IH[OF this] obtain i where i: "i < length rows" "t = Time (fst (rows ! i))"
      "gt (snd (rows ! i)) avg" "\<forall>j<i. \<not> gt (snd (rows ! j)) avg"
      by blast
    have "\<forall>j<Suc i. \<not> gt (snd ((r # rows) ! j)) avg"
      using False i(4) by (simp add: less_Suc_eq_0_disj) auto
    with i(1-3) have "Suc i < length (r # rows) \<and> t = Time (fst ((r # rows) ! Suc i)) \<and>
        gt (snd ((r # rows) ! Suc i)) avg \<and> (\<forall>j<Suc i. \<not> gt (snd ((r # rows) ! j)) avg)"
      by simp
    then show ?thesis by blast
  qed
qed

lemma first_exceed_Some_least:
  "sorted (map (\<lambda>r. Time (fst r)) rows) \<Longrightarrow> first_exceed rows avg = Some t \<Longrightarrow>
     r \<in> set rows \<Longrightarrow> gt (snd r) avg \<Longrightarrow> t \<le> Time (fst r)"
proof (induction rows)
  case Nil
  then show ?case by simp
next
  case (Cons a rows)
  show ?case
  proof (cases "gt (snd a) avg")
    case True
    with Cons.prems(2) have "t = Time (fst a)"
      by (simp add: first_exceed_Cons)
    with Cons.prems(1,3) show ?thesis
      by auto
  next
    case False
    with Cons.prems have "first_exceed rows avg = Some t" "r \<in> set rows" "sorted (map (\<lambda>r. Time (fst r)) rows)"
      by (auto simp: first_exceed_Cons)
    with Cons.IH Cons.prems(4) show ?thesis
      by blast
  qed
qed

text \<open>
  Claim C4. For every frame of rows and every average (NaN included), the crossing
  detection returns nothing exactly when no row's cumulative volume is strictly greater
  than the average, and otherwise returns the time of the first row in frame order that is
  strictly greater; when the frame is in ascending time order, no row above the average
  has an earlier time.
\<close>

theorem first_exceed_is_first_crossing:
  "(first_exceed rows avg = None \<longleftrightarrow> (\<forall>r \<in> set rows. \<not> gt (snd r) avg)) \<and>
   (\<forall>t. first_exceed rows avg = Some t \<longrightarrow>
      (\<exists>i<length rows. t = Time (fst (rows ! i)) \<and> gt (snd (rows ! i)) avg \<and>
         (\<forall>j<i. \<not> gt (snd (rows ! j)) avg))) \<and>
   (\<forall>t. sorted (map (\<lambda>r. Time (fst r)) rows) \<and> first_exceed rows avg = Some t \<longrightarrow>
      (\<forall>r \<in> set rows. gt (snd r) avg \<longrightarrow> t \<le> Time (fst r)))"
  using first_exceed_None_iff[of rows avg] first_exceed_Some_index[of rows avg]
    first_exceed_Some_least[of rows avg]
  by blast

theorem first_exceed_is_first_crossing_witness:
  "first_exceed (daily_stock_data sort_Time three_ticks Apr19) (Num 10) = Some 33301 \<and>
   first_exceed (daily_stock_data sort_Time three_ticks Apr19) (Num 18) = None \<and>
   sorted (map (\<lambda>r. Time (fst r)) (daily_stock_data sort_Time three_ticks Apr19)) \<and>
   (\<exists>i<length (daily_stock_data sort_Time three_ticks Apr19).
      33301 = Time (fst (daily_stock_data sort_Time three_ticks Apr19 ! i)) \<and>
      gt (snd (daily_stock_data sort_Time three_ticks Apr19 ! i)) (Num 10) \<and>
      \<not> (\<exists>j<i. gt (snd (daily_stock_data sort_Time three_ticks Apr19 ! j)) (Num 10))) \<and>
   \<not> (\<exists>r \<in> set (daily_stock_data sort_Time three_ticks Apr19). gt (snd r) (Num 18)) \<and>
   \<not> (\<exists>r \<in> set (daily_stock_data sort_Time three_ticks Apr19).
         gt (snd r) (Num 10) \<and> Time (fst r) < 33301)"
proof -
  let ?rows = "daily_stock_data sort_Time three_ticks Apr19"
  note t10 = first_exceed_is_first_crossing[of ?rows "Num 10"]
  note t18 = first_exceed_is_first_crossing[of ?rows "Num 18"]
  have a: "first_exceed ?rows (Num 10) = Some 33301"
    by (simp add: three_rows first_exceed_Cons tk_def)
  have b: "first_exceed ?rows (Num 18) = None"
    by (simp add: three_rows first_exceed_Cons first_exceed_Nil)
  have c: "sorted (map (\<lambda>r. Time (fst r)) ?rows)"
    by (simp add: three_rows tk_def)
  have "\<exists>i<length ?rows. 33301 = Time (fst (?rows ! i)) \<and> gt (snd (?rows ! i)) (Num 10) \<and>
      (\<forall>j<i. \<not> gt (snd (?rows ! j)) (Num 10))"
    using conjunct1[OF conjunct2[OF t10]] a by blast
  then have ex: "\<exists>i<length ?rows. 33301 = Time (fst (?rows ! i)) \<and> gt (snd (?rows ! i)) (Num 10) \<and>
      \<not> (\<exists>j<i. gt (snd (?rows ! j)) (Num 10))"
    by blast
  have d: "\<forall>r \<in> set ?rows. gt (snd r) (Num 10) \<longrightarrow> 33301 \<le> Time (fst r)"
    using conjunct2[OF conjunct2[OF t10]] a c by blast
  have e: "\<not> (\<exists>r \<in> set ?rows. gt (snd r) (Num 10) \<and> Time (fst r) < 33301)"
  proof
    assume "\<exists>r \<in> set ?rows. gt (snd r) (Num 10) \<and> Time (fst r) < 33301"
    then obtain r where r: "r \<in> set ?rows" "gt (snd r) (Num 10)" "Time (fst r) < 33301"
      by blast
    with d have "33301 \<le> Time (fst r)"
      by blast
    with r(3) show False
      by simp
  qed
  have "\<forall>r \<in> set ?rows. \<not> gt (snd r) (Num 18)"
    using conjunct1[OF t18] b by blast
  then have f: "\<not> (\<exists>r \<in> set ?rows. gt (snd r) (Num 18))"
    by blast
  show ?thesis
    using a b c ex f e by (intro conjI)
qed

section \<open>The loop of the analysis\<close>

lemma store_results_Nil: "store_results v [] res = res"
  by (simp add: store_results_def)

lemma store_results_Cons:
  "store_results v (k # ks) res =
     store_results v ks
       (AList.update (k, Apr22) (v (k, Apr22)) (AList.update (k, Apr19) (v (k, Apr19)) res))"
  by (simp add: store_results_def)

lemma date_loop_eq:
  "date_loop srt avg (k, filter (\<lambda>t. iStock_Name t = k) tbl) (a19, a22, res) =
     (a19 @ [stock_frame srt tbl Apr19 k], a22 @ [stock_frame srt tbl Apr22 k],
      AList.update (k, Apr22) (crossing srt avg tbl (k, Apr22))
        (AList.update (k, Apr19) (crossing srt avg tbl (k, Apr19)) res))"
  by (simp add: date_loop_def loop_body_def Let_def stock_frame_def crossing_def)

lemma fold_date_loop:
  "fold (date_loop srt avg) (map (\<lambda>k. (k, filter (\<lambda>t. iStock_Name t = k) tbl)) ks) (a19, a22, res) =
     (a19 @ map (stock_frame srt tbl Apr19) ks,
      a22 @ map (stock_frame srt tbl Apr22) ks,
      store_results (crossing srt avg tbl) ks res)"
proof (induction ks arbitrary: a19 a22 res)
  case Nil
  show ?case by (simp add: store_results_Nil)
next
  case (Cons k ks)
  show ?case
    by (simp add: date_loop_eq Cons.IH store_results_Cons)
qed

lemma analyze_intraday_data_eq:
  "analyze_intraday_data srt self avg =
     (self\<lparr>intraday_data := open_ticks self\<rparr>,
      if open_ticks self = [] then Inl ValueError
      else Inr (concat (map (stock_frame srt (open_ticks self) Apr19)
                          (sort (remdups (map iStock_Name (open_ticks self))))),
                concat (map (stock_frame srt (open_ticks self) Apr22)
                          (sort (remdups (map iStock_Name (open_ticks self))))),
                store_results (crossing srt avg (open_ticks self))
                  (sort (remdups (map iStock_Name (open_ticks self)))) []))"
proof -
  let ?ks = "sort (remdups (map iStock_Name (open_ticks self)))"
  have "set ?ks = iStock_Name ` set (open_ticks self)"
    by simp
  then have ks: "?ks = [] \<longleftrightarrow> open_ticks self = []"
    by (metis empty_is_image set_empty)
  have "fold (date_loop srt avg) (groupby (open_ticks self)) ([], [], []) =
      (map (stock_frame srt (open_ticks self) Apr19) ?ks,
       map (stock_frame srt (open_ticks self) Apr22) ?ks,
       store_results (crossing srt avg (open_ticks self)) ?ks [])"
    unfolding groupby_def by (simp only: fold_date_loop append_Nil)
  then show ?thesis
    unfolding analyze_intraday_data_def Let_def
    by (simp add: open_ticks_def[symmetric] pd_concat_def ks)
qed

lemma map_of_store_results:
  "map_of (store_results v ks res) (s, d) =
     (if s \<in> set ks then Some (v (s, d)) else map_of res (s, d))"
proof (induction ks arbitrary: res s d)
  case Nil
  show ?case by (simp add: store_results_def)
next
  case (Cons k ks)
  show ?case
    by (cases d) (simp_all add: store_results_Cons Cons.IH AList.update_conv')
qed

lemma keys_store_results:
  "fst ` set (store_results v ks res) = fst ` set res \<union> set ks \<times> {Apr19, Apr22}"
proof (induction ks arbitrary: res)
  case Nil
  show ?case by (simp add: store_results_def)
next
  case (Cons k ks)
  show ?case
    by (auto simp: store_results_Cons Cons.IH AList.dom_update)
qed

lemma distinct_store_results:
  "distinct (map fst res) \<Longrightarrow> distinct (map fst (store_results v ks res))"
proof (induction ks arbitrary: res)
  case Nil
  then show ?case by (simp add: store_results_def)
next
  case (Cons k ks)
  show ?case
    using Cons.prems by (simp add: store_results_Cons Cons.IH AList.distinct_update)
qed

section \<open>Evaluations of the whole analysis\<close>

lemma tk_sel:
  "iStock_Name (tk s d t q) = s" "iDate (tk s d t q) = d" "Time (tk s d t q) = t"
  "Last_Traded_Quantity (tk s d t q) = q"
  by (simp_all add: tk_def)

lemma dr_sel: "Stock_Name (dr s d v) = s" "Date (dr s d v) = d" "Volume (dr s d v) = v"
  by (simp_all add: dr_def)

lemma run_analysis_eq:
  "run_analysis dsrt tsrt self =
     (self\<lparr>intraday_data := open_ticks self\<rparr>,
      case snd (analyze_intraday_data tsrt self (get_avg_volumes dsrt self)) of
        Inl e \<Rightarrow> Inl e
      | Inr (r19, r22, results) \<Rightarrow> Inr (get_avg_volumes dsrt self, r19, r22, results))"
  by (simp add: run_analysis_def analyze_intraday_data_eq Let_def)

lemma avg_preopen: "get_avg_volumes sort_Date_desc preopen_state = [((''ABC'', Apr19), Num 100), ((''ABC'', Apr22), Num 100)]"
  by (simp add: get_avg_volumes_def preopen_state_def init_def dr_def unique_def
      calculate_30_day_avg_def sort_Date_desc_def mean_Nil mean_exact)

lemma avg_no_history:
  "get_avg_volumes sort_Date_desc no_history_state = [((''ABC'', Apr19), NaN), ((''ABC'', Apr22), Num 100)]"
  by (simp add: get_avg_volumes_def no_history_state_def init_def dr_def unique_def
      calculate_30_day_avg_def sort_Date_desc_def mean_Nil mean_exact)

lemma open_ticks_preopen: "open_ticks preopen_state = []"
  by (simp add: open_ticks_def preopen_state_def init_def tk_def market_open_def)

text \<open>
  Claim C10 at a failing input. The daily table has stock ABC, and the only intraday tick
  (of ABC, on 19-04-2024) is at 09:00:00, before the market open. ABC then has no tick on
  either reference date after the market-open filter, the loop over \<^verbatim>\<open>groupby\<close> runs
  zero times, and \<^verbatim>\<open>pd.concat\<close> of the empty list raises \<^verbatim>\<open>ValueError\<close>: the analysis
  does raise an error.
\<close>

theorem no_ticks_after_open_raises:
  "snd (run_analysis sort_Date_desc sort_Time preopen_state) = Inl ValueError"
  by (simp add: run_analysis_eq analyze_intraday_data_eq open_ticks_preopen)

lemma open_ticks_no_history: "open_ticks no_history_state = [tk ''ABC'' 20240419 33300 5]"
  by (simp add: open_ticks_def no_history_state_def init_def tk_def market_open_def)

lemma frame_single:
  "stock_frame sort_Time [tk ''ABC'' 20240419 33300 5] Apr19 ''ABC'' = [(tk ''ABC'' 20240419 33300 5, 5)]"
  "stock_frame sort_Time [tk ''ABC'' 20240419 33300 5] Apr22 ''ABC'' = []"
  by (simp_all add: stock_frame_def daily_stock_data_def tk_def sort_Time_def rolling_sum_def roll_step_def)

text \<open>
  Claim C2 at a failing input. Stock ABC has one daily record, dated 19-04-2024, so none
  strictly before that reference date, and one intraday tick of quantity 5 at 09:15:00 on
  19-04-2024. The average is NaN and is stored under the key, so the default 0 of
  \<^verbatim>\<open>avg_volumes.get\<close> is not used; the comparison with NaN is false, and the tick with
  cumulative volume 5 is not flagged: the result for 19-04-2024 is \<open>None\<close>.
\<close>

theorem nan_average_never_crossed:
  "calculate_30_day_avg sort_Date_desc no_history_state ''ABC'' (Timestamp Apr19) = NaN \<and>
   snd (run_analysis sort_Date_desc sort_Time no_history_state) =
     Inr ([((''ABC'', Apr19), NaN), ((''ABC'', Apr22), Num 100)],
          [(tk ''ABC'' 20240419 33300 5, 5)], [],
          [((''ABC'', Apr19), None), ((''ABC'', Apr22), None)])"
proof -
  have "calculate_30_day_avg sort_Date_desc no_history_state ''ABC'' (Timestamp Apr19) = NaN"
    by (simp add: no_history_state_def init_def dr_def calculate_30_day_avg_def sort_Date_desc_def mean_Nil mean_exact)
  moreover have "snd (run_analysis sort_Date_desc sort_Time no_history_state) =
     Inr ([((''ABC'', Apr19), NaN), ((''ABC'', Apr22), Num 100)],
          [(tk ''ABC'' 20240419 33300 5, 5)], [],
          [((''ABC'', Apr19), None), ((''ABC'', Apr22), None)])"
    by (simp add: run_analysis_eq analyze_intraday_data_eq open_ticks_no_history avg_no_history tk_sel)
       (simp add: frame_single store_results_def crossing_def avg_volume_of_def
          first_exceed_Cons first_exceed_Nil)
  ultimately show ?thesis by simp
qed

section \<open>The keys of the results table\<close>

lemma sorted_remdups_keys: "set (sort (remdups (map iStock_Name tbl))) = iStock_Name ` set tbl"
  by simp

text \<open>
  Claim C5, as amended. Whenever the analysis returns, the results table has exactly one
  entry for every stock that has at least one intraday tick at or after the market open,
  for each of the two reference dates, and no other entry; the entry holds the first
  crossing time of that stock's frame for that date, or \<open>None\<close>. The stocks are those
  of the \<^verbatim>\<open>groupby\<close> on the intraday table, not those of the daily table.
\<close>

theorem results_keyed_by_intraday_stocks:
  assumes "analyze_intraday_data srt self avg_volumes = (self', Inr (r19, r22, results))"
  shows "distinct (map fst results) \<and>
         fst ` set results =
           iStock_Name ` {t \<in> set (intraday_data self). market_open \<le> Time t} \<times> {Apr19, Apr22} \<and>
         (\<forall>key \<in> fst ` set results.
            map_of results key =
              Some (first_exceed
                      (daily_stock_data srt
                         (filter (\<lambda>t. iStock_Name t = fst key)
                            (filter (\<lambda>t. market_open \<le> Time t) (intraday_data self)))
                         (snd key))
                      (avg_volume_of avg_volumes key)))"
proof -
  let ?tbl = "open_ticks self"
  let ?ks = "sort (remdups (map iStock_Name ?tbl))"
  have res: "results = store_results (crossing srt avg_volumes ?tbl) ?ks []"
    using assms by (simp add: analyze_intraday_data_eq split: if_splits)
  have d: "distinct (map fst results)"
    unfolding res by (rule distinct_store_results) simp
  have keys: "fst ` set results = set ?ks \<times> {Apr19, Apr22}"
    unfolding res by (simp add: keys_store_results)
  have ks: "set ?ks = iStock_Name ` {t \<in> set (intraday_data self). market_open \<le> Time t}"
    by (simp add: open_ticks_def)
  have "map_of results key = Some (crossing srt avg_volumes ?tbl key)"
    if "key \<in> fst ` set results" for key
  proof -
    obtain s d where key: "key = (s, d)" by (cases key)
    with that keys have "s \<in> set ?ks" by auto
    then show ?thesis
      unfolding res key by (simp only: map_of_store_results if_True)
  qed
  then have "\<forall>key \<in> fst ` set results. map_of results key =
      Some (first_exceed
              (daily_stock_data srt
                 (filter (\<lambda>t. iStock_Name t = fst key)
                    (filter (\<lambda>t. market_open \<le> Time t) (intraday_data self)))
                 (snd key))
              (avg_volume_of avg_volumes key))"
    by (simp add: crossing_def stock_frame_def open_ticks_def)
  with d keys ks show ?thesis
    by simp
qed

lemma open_ticks_other_stock: "open_ticks other_stock_state = [tk ''XYZ'' 20240419 33300 500]"
  by (simp add: open_ticks_def other_stock_state_def init_def tk_sel market_open_def)

lemma avg_other_stock:
  "get_avg_volumes sort_Date_desc other_stock_state = [((''ABC'', Apr19), Num 100), ((''ABC'', Apr22), Num 100)]"
  by (simp add: get_avg_volumes_def other_stock_state_def init_def dr_def unique_def
      calculate_30_day_avg_def sort_Date_desc_def mean_Nil mean_exact)

lemma frame_other_stock:
  "stock_frame sort_Time [tk ''XYZ'' 20240419 33300 500] Apr19 ''XYZ'' = [(tk ''XYZ'' 20240419 33300 500, 500)]"
  "stock_frame sort_Time [tk ''XYZ'' 20240419 33300 500] Apr22 ''XYZ'' = []"
  by (simp_all add: stock_frame_def daily_stock_data_def tk_def sort_Time_def rolling_sum_def roll_step_def)

lemma analyze_other_stock:
  "snd (analyze_intraday_data sort_Time other_stock_state
          [((''ABC'', Apr19), Num 100), ((''ABC'', Apr22), Num 100)]) =
     Inr ([(tk ''XYZ'' 20240419 33300 500, 500)], [],
          [((''XYZ'', Apr19), Some 33300), ((''XYZ'', Apr22), None)])"
  by (simp add: analyze_intraday_data_eq open_ticks_other_stock tk_sel)
     (simp add: frame_other_stock store_results_def crossing_def avg_volume_of_def
        first_exceed_Cons first_exceed_Nil tk_sel)

text \<open>
  The claim C5 as stated fails when the daily table has stock ABC and the intraday table
  only has a tick of stock XYZ: the results table has the two entries of XYZ and none
  for ABC.
\<close>

theorem results_miss_daily_stock_counterexample:
  "''ABC'' \<in> set (map Stock_Name (daily_data other_stock_state)) \<and>
   snd (run_analysis sort_Date_desc sort_Time other_stock_state) =
     Inr ([((''ABC'', Apr19), Num 100), ((''ABC'', Apr22), Num 100)],
          [(tk ''XYZ'' 20240419 33300 500, 500)], [],
          [((''XYZ'', Apr19), Some 33300), ((''XYZ'', Apr22), None)])"
  by (simp add: run_analysis_eq avg_other_stock analyze_other_stock)
     (simp add: other_stock_state_def init_def dr_sel)

theorem results_keyed_by_intraday_stocks_witness:
  "analyze_intraday_data sort_Time other_stock_state
       [((''ABC'', Apr19), Num 100), ((''ABC'', Apr22), Num 100)] =
     (other_stock_state\<lparr>intraday_data := [tk ''XYZ'' 20240419 33300 500]\<rparr>,
      Inr ([(tk ''XYZ'' 20240419 33300 500, 500)], [],
           [((''XYZ'', Apr19), Some 33300), ((''XYZ'', Apr22), None)])) \<and>
   fst ` set [((''XYZ'', Apr19), Some (33300::nat)), ((''XYZ'', Apr22), None)] =
     iStock_Name ` {t \<in> set (intraday_data other_stock_state). market_open \<le> Time t} \<times> {Apr19, Apr22}"
proof -
  have run: "analyze_intraday_data sort_Time other_stock_state
       [((''ABC'', Apr19), Num 100), ((''ABC'', Apr22), Num 100)] =
     (other_stock_state\<lparr>intraday_data := [tk ''XYZ'' 20240419 33300 500]\<rparr>,
      Inr ([(tk ''XYZ'' 20240419 33300 500, 500)], [],
           [((''XYZ'', Apr19), Some 33300), ((''XYZ'', Apr22), None)]))"
    using analyze_other_stock
    by (simp add: analyze_intraday_data_eq open_ticks_other_stock)
  show ?thesis
    using results_keyed_by_intraday_stocks[OF run] run by blast
qed

section \<open>What the analysis changes in the object\<close>

lemma open_ticks_idem: "open_ticks (self\<lparr>intraday_data := open_ticks self\<rparr>) = open_ticks self"
  by (simp add: open_ticks_def)

lemma intraday_update_id:
  "self\<lparr>intraday_data := xs\<rparr> = self \<longleftrightarrow> xs = intraday_data self"
proof
  assume "self\<lparr>intraday_data := xs\<rparr> = self"
  then have "intraday_data (self\<lparr>intraday_data := xs\<rparr>) = intraday_data self"
    by simp
  then show "xs = intraday_data self"
    by simp
next
  assume "xs = intraday_data self"
  then show "self\<lparr>intraday_data := xs\<rparr> = self"
    by simp
qed

text \<open>
  Claim C9, as amended. \<^verbatim>\<open>calculate_30_day_avg\<close> and \<^verbatim>\<open>get_avg_volumes\<close> only read the
  object (in the model they return no object state). \<^verbatim>\<open>analyze_intraday_data\<close>, and so
  \<^verbatim>\<open>run_analysis\<close>, leaves the daily table and the two tables as loaded from the files
  unchanged, but replaces the combined intraday table \<^verbatim>\<open>self.intraday_data\<close> by its rows at
  or after the market open, once, before the loop; the loop itself changes nothing more.
  The object is unchanged exactly when no tick lies before the market open, and analysing
  again from the new state gives the same state and the same result.
\<close>

theorem analysis_replaces_intraday_table:
  "fst (analyze_intraday_data srt self avg_volumes) =
     self\<lparr>intraday_data := filter (\<lambda>t. market_open \<le> Time t) (intraday_data self)\<rparr> \<and>
   fst (run_analysis dsrt srt self) =
     self\<lparr>intraday_data := filter (\<lambda>t. market_open \<le> Time t) (intraday_data self)\<rparr> \<and>
   daily_data (fst (run_analysis dsrt srt self)) = daily_data self \<and>
   intraday_data_19 (fst (run_analysis dsrt srt self)) = intraday_data_19 self \<and>
   intraday_data_22 (fst (run_analysis dsrt srt self)) = intraday_data_22 self \<and>
   (fst (run_analysis dsrt srt self) = self \<longleftrightarrow>
      (\<forall>t \<in> set (intraday_data self). market_open \<le> Time t)) \<and>
   analyze_intraday_data srt (fst (analyze_intraday_data srt self avg_volumes)) avg_volumes =
     analyze_intraday_data srt self avg_volumes"
proof -
  have a: "fst (analyze_intraday_data srt self avg_volumes) = self\<lparr>intraday_data := open_ticks self\<rparr>"
    by (simp add: analyze_intraday_data_eq)
  have r: "fst (run_analysis dsrt srt self) = self\<lparr>intraday_data := open_ticks self\<rparr>"
    by (simp add: run_analysis_eq)
  have u: "fst (run_analysis dsrt srt self) = self \<longleftrightarrow>
      (\<forall>t \<in> set (intraday_data self). market_open \<le> Time t)"
    unfolding r intraday_update_id open_ticks_def by (simp add: filter_id_conv)
  have i: "analyze_intraday_data srt (fst (analyze_intraday_data srt self avg_volumes)) avg_volumes =
     analyze_intraday_data srt self avg_volumes"
    unfolding a
    by (simp only: analyze_intraday_data_eq[of srt "self\<lparr>intraday_data := open_ticks self\<rparr>"]
          analyze_intraday_data_eq[of srt self] open_ticks_idem) simp
  show ?thesis
    using a r u i by (simp add: open_ticks_def)
qed

lemma open_ticks_mixed: "open_ticks mixed_state = [tk ''ABC'' 20240419 33300 7]"
  by (simp add: open_ticks_def mixed_state_def init_def tk_sel market_open_def)

text \<open>
  The claim C9 as stated fails when a tick lies before the market open: with one tick at
  09:00:00 and one at 09:15:00, the analysis returns normally and the intraday table of
  the object has lost the first tick.
\<close>

theorem intraday_table_changed_counterexample:
  "intraday_data mixed_state = [tk ''ABC'' 20240419 32400 5, tk ''ABC'' 20240419 33300 7] \<and>
   intraday_data (fst (run_analysis sort_Date_desc sort_Time mixed_state)) =
     [tk ''ABC'' 20240419 33300 7] \<and>
   snd (run_analysis sort_Date_desc sort_Time mixed_state) \<noteq> Inl ValueError"
proof -
  have "intraday_data mixed_state = [tk ''ABC'' 20240419 32400 5, tk ''ABC'' 20240419 33300 7]"
    by (simp add: mixed_state_def init_def)
  moreover have "intraday_data (fst (run_analysis sort_Date_desc sort_Time mixed_state)) =
     [tk ''ABC'' 20240419 33300 7]"
    by (simp add: run_analysis_eq open_ticks_mixed)
  moreover have "snd (run_analysis sort_Date_desc sort_Time mixed_state) \<noteq> Inl ValueError"
    by (simp add: run_analysis_eq analyze_intraday_data_eq open_ticks_mixed)
  ultimately show ?thesis by simp
qed

theorem analysis_replaces_intraday_table_witness:
  "\<not> (\<exists>t \<in> set (intraday_data no_history_state). Time t < market_open) \<and>
   fst (run_analysis sort_Date_desc sort_Time no_history_state) = no_history_state"
proof -
  have h: "\<forall>t \<in> set (intraday_data no_history_state). market_open \<le> Time t"
    by (simp add: no_history_state_def init_def tk_sel market_open_def)
  show ?thesis
    using analysis_replaces_intraday_table[of sort_Time no_history_state "[]" sort_Date_desc] h
    by (simp add: not_less)
qed

section \<open>The rows of the rolling tables\<close>

lemma sorts_by_Time_Nil: "sorts_by_Time srt \<Longrightarrow> srt [] = []"
proof -
  assume "sorts_by_Time srt"
  then have "mset (srt []) = mset ([] :: tick list)"
    unfolding sorts_by_Time_def by blast
  then show ?thesis by simp
qed

lemma sorts_by_Time_sorted: "sorts_by_Time srt \<Longrightarrow> sorted (map Time (srt xs))"
  by (simp add: sorts_by_Time_def sorted_map)

lemma fst_stock_frame:
  "map fst (stock_frame srt tbl d k) =
     srt (filter (\<lambda>t. iDate t = Timestamp d) (filter (\<lambda>t. iStock_Name t = k) tbl))"
  by (simp only: stock_frame_def fst_daily_stock_data)

lemma stock_frame_stock:
  assumes "sorts_by_Time srt" and "r \<in> set (stock_frame srt tbl d k)"
  shows "iStock_Name (fst r) = k"
proof -
  have "fst r \<in> set (map fst (stock_frame srt tbl d k))"
    using assms(2) by (simp del: fst_conv)
  then have "fst r \<in> set (filter (\<lambda>t. iDate t = Timestamp d) (filter (\<lambda>t. iStock_Name t = k) tbl))"
    by (simp only: fst_stock_frame sorts_by_Time_set[OF assms(1)])
  then show ?thesis by simp
qed

lemma stock_frame_absent:
  assumes "sorts_by_Time srt" and "s \<notin> iStock_Name ` set tbl"
  shows "stock_frame srt tbl d s = []"
proof -
  have "filter (\<lambda>t. iStock_Name t = s) tbl = []"
    using assms(2) by (auto simp: filter_empty_conv)
  then have "map fst (stock_frame srt tbl d s) = []"
    by (simp add: fst_stock_frame sorts_by_Time_Nil[OF assms(1)])
  then show ?thesis by simp
qed

lemma filter_stock_frame:
  assumes "sorts_by_Time srt"
  shows "filter (\<lambda>r. iStock_Name (fst r) = s) (stock_frame srt tbl d k) =
           (if k = s then stock_frame srt tbl d s else [])"
proof (cases "k = s")
  case True
  then show ?thesis
    using stock_frame_stock[OF assms] by (simp add: filter_id_conv)
next
  case False
  then show ?thesis
    using stock_frame_stock[OF assms] by (auto simp: filter_empty_conv)
qed

lemma filter_concat_frames:
  assumes "sorts_by_Time srt" and "distinct ks"
  shows "filter (\<lambda>r. iStock_Name (fst r) = s) (concat (map (stock_frame srt tbl d) ks)) =
           (if s \<in> set ks then stock_frame srt tbl d s else [])"
  using assms(2)
proof (induction ks)
  case Nil
  show ?case by simp
next
  case (Cons k ks)
  then have IH: "filter (\<lambda>r. iStock_Name (fst r) = s) (concat (map (stock_frame srt tbl d) ks)) =
           (if s \<in> set ks then stock_frame srt tbl d s else [])"
    by simp
  have "k \<notin> set ks"
    using Cons.prems by simp
  then show ?case
    by (auto simp: IH filter_stock_frame[OF assms(1)])
qed

lemma filter_rolling_table:
  assumes "sorts_by_Time srt"
  shows "filter (\<lambda>r. iStock_Name (fst r) = s)
           (concat (map (stock_frame srt tbl d) (sort (remdups (map iStock_Name tbl))))) =
         stock_frame srt tbl d s"
proof -
  have "distinct (sort (remdups (map iStock_Name tbl)))"
    by simp
  from filter_concat_frames[OF assms this]
  have "filter (\<lambda>r. iStock_Name (fst r) = s)
           (concat (map (stock_frame srt tbl d) (sort (remdups (map iStock_Name tbl))))) =
         (if s \<in> iStock_Name ` set tbl then stock_frame srt tbl d s else [])"
    by simp
  then show ?thesis
    using stock_frame_absent[OF assms, of s tbl d] by (simp split: if_splits)
qed

text \<open>
  Claim C7. Whenever the intraday table has a tick at or after the market open (09:15:00),
  the analysis returns, with rolling tables that do not depend on the averages, and the
  rows of a stock in the rolling table of a reference date are, tick for tick, the
  intraday ticks of that stock on that date at or after the market open, one row per tick,
  in ascending order of time; a tick before the market open or on another date gives no
  row. (Without any tick at or after the market open the analysis raises: see C10.)
\<close>

theorem rolling_series_one_point_per_open_tick:
  assumes "sorts_by_Time srt"
    and "\<exists>t \<in> set (intraday_data self). market_open \<le> Time t"
  shows "\<exists>r19 r22.
           (\<forall>avg_volumes. \<exists>results.
              analyze_intraday_data srt self avg_volumes =
                (self\<lparr>intraday_data :=
                   filter (\<lambda>t. market_open \<le> Time t) (intraday_data self)\<rparr>,
                 Inr (r19, r22, results))) \<and>
           (\<exists>results.
              run_analysis dsrt srt self =
                (self\<lparr>intraday_data :=
                   filter (\<lambda>t. market_open \<le> Time t) (intraday_data self)\<rparr>,
                 Inr (get_avg_volumes dsrt self, r19, r22, results))) \<and>
           (\<forall>s d.
              mset (map fst (filter (\<lambda>r. iStock_Name (fst r) = s)
                               (if d = Apr19 then r19 else r22))) =
                mset (filter (\<lambda>t. iStock_Name t = s \<and> iDate t = Timestamp d \<and>
                                   market_open \<le> Time t) (intraday_data self)) \<and>
              length (filter (\<lambda>r. iStock_Name (fst r) = s) (if d = Apr19 then r19 else r22)) =
                length (filter (\<lambda>t. iStock_Name t = s \<and> iDate t = Timestamp d \<and>
                                     market_open \<le> Time t) (intraday_data self)) \<and>
              sorted (map (\<lambda>r. Time (fst r))
                        (filter (\<lambda>r. iStock_Name (fst r) = s) (if d = Apr19 then r19 else r22))))"
proof -
  let ?tbl = "open_ticks self"
  let ?ks = "sort (remdups (map iStock_Name ?tbl))"
  let ?r = "\<lambda>d. concat (map (stock_frame srt ?tbl d) ?ks)"
  have ne: "?tbl \<noteq> []"
    using assms(2) by (auto simp: open_ticks_def filter_empty_conv)
  have an: "analyze_intraday_data srt self avg =
      (self\<lparr>intraday_data := ?tbl\<rparr>,
       Inr (?r Apr19, ?r Apr22, store_results (crossing srt avg ?tbl) ?ks []))" for avg
    using ne by (simp add: analyze_intraday_data_eq)
  have A: "\<forall>avg_volumes. \<exists>results.
      analyze_intraday_data srt self avg_volumes =
        (self\<lparr>intraday_data := filter (\<lambda>t. market_open \<le> Time t) (intraday_data self)\<rparr>,
         Inr (?r Apr19, ?r Apr22, results))"
    using an unfolding open_ticks_def by blast
  have "run_analysis dsrt srt self =
      (self\<lparr>intraday_data := ?tbl\<rparr>,
       Inr (get_avg_volumes dsrt self, ?r Apr19, ?r Apr22,
            store_results (crossing srt (get_avg_volumes dsrt self) ?tbl) ?ks []))"
    by (simp add: run_analysis_def Let_def an)
  then have B: "\<exists>results. run_analysis dsrt srt self =
      (self\<lparr>intraday_data := filter (\<lambda>t. market_open \<le> Time t) (intraday_data self)\<rparr>,
       Inr (get_avg_volumes dsrt self, ?r Apr19, ?r Apr22, results))"
    unfolding open_ticks_def by blast
  have C: "mset (map fst (filter (\<lambda>r. iStock_Name (fst r) = s)
                               (if d = Apr19 then ?r Apr19 else ?r Apr22))) =
             mset (filter (\<lambda>t. iStock_Name t = s \<and> iDate t = Timestamp d \<and>
                                   market_open \<le> Time t) (intraday_data self)) \<and>
           length (filter (\<lambda>r. iStock_Name (fst r) = s) (if d = Apr19 then ?r Apr19 else ?r Apr22)) =
             length (filter (\<lambda>t. iStock_Name t = s \<and> iDate t = Timestamp d \<and>
                                     market_open \<le> Time t) (intraday_data self)) \<and>
           sorted (map (\<lambda>r. Time (fst r))
                     (filter (\<lambda>r. iStock_Name (fst r) = s) (if d = Apr19 then ?r Apr19 else ?r Apr22)))"
    for s d
  proof -
    let ?series = "filter (\<lambda>r. iStock_Name (fst r) = s) (if d = Apr19 then ?r Apr19 else ?r Apr22)"
    let ?ticks = "filter (\<lambda>t. iStock_Name t = s \<and> iDate t = Timestamp d \<and> market_open \<le> Time t)
                   (intraday_data self)"
    have "(if d = Apr19 then ?r Apr19 else ?r Apr22) = ?r d"
      by (cases d) simp_all
    then have series: "?series = stock_frame srt ?tbl d s"
      by (simp only: filter_rolling_table[OF assms(1)])
    have "mset (map fst ?series) =
          mset (filter (\<lambda>t. iDate t = Timestamp d) (filter (\<lambda>t. iStock_Name t = s) ?tbl))"
      by (simp only: series fst_stock_frame sorts_by_Time_mset[OF assms(1)])
    also have "filter (\<lambda>t. iDate t = Timestamp d) (filter (\<lambda>t. iStock_Name t = s) ?tbl) = ?ticks"
      by (simp add: open_ticks_def conj_commute conj_left_commute)
    finally have m: "mset (map fst ?series) = mset ?ticks" .
    then have "length (map fst ?series) = length ?ticks"
      by (rule mset_eq_length)
    then have l: "length ?series = length ?ticks"
      by simp
    have "sorted (map Time (map fst ?series))"
      by (simp only: series fst_stock_frame sorts_by_Time_sorted[OF assms(1)])
    then have "sorted (map (\<lambda>r. Time (fst r)) ?series)"
      by (simp add: comp_def)
    with m l show ?thesis
      by blast
  qed
  show ?thesis
    using A B C by blast
qed

lemma open_ticks_sample:
  "open_ticks sample_state =
     [tk ''ABC'' 20240419 33302 7, tk ''ABC'' 20240419 33300 5, tk ''ABC'' 20240419 33301 6,
      tk ''ABC'' 20240422 33300 9]"
  by (simp add: open_ticks_def sample_state_def init_def tk_sel market_open_def)

lemma frames_sample:
  "stock_frame sort_Time
     [tk ''ABC'' 20240419 33302 7, tk ''ABC'' 20240419 33300 5, tk ''ABC'' 20240419 33301 6,
      tk ''ABC'' 20240422 33300 9] Apr19 ''ABC'' =
     [(tk ''ABC'' 20240419 33300 5, 5), (tk ''ABC'' 20240419 33301 6, 11),
      (tk ''ABC'' 20240419 33302 7, 18)]"
  "stock_frame sort_Time
     [tk ''ABC'' 20240419 33302 7, tk ''ABC'' 20240419 33300 5, tk ''ABC'' 20240419 33301 6,
      tk ''ABC'' 20240422 33300 9] Apr22 ''ABC'' =
     [(tk ''ABC'' 20240422 33300 9, 9)]"
  by (simp_all add: stock_frame_def daily_stock_data_def tk_def sort_Time_def rolling_sum_def roll_step_def)

lemma avg_sample:
  "get_avg_volumes sort_Date_desc sample_state =
     [((''ABC'', Apr19), Num 100), ((''ABC'', Apr22), Num 100)]"
  by (simp add: get_avg_volumes_def sample_state_def init_def dr_def unique_def
      calculate_30_day_avg_def sort_Date_desc_def mean_Nil mean_exact)

lemma run_sample:
  "run_analysis sort_Date_desc sort_Time sample_state =
     (sample_state\<lparr>intraday_data :=
        [tk ''ABC'' 20240419 33302 7, tk ''ABC'' 20240419 33300 5, tk ''ABC'' 20240419 33301 6,
         tk ''ABC'' 20240422 33300 9]\<rparr>,
      Inr ([((''ABC'', Apr19), Num 100), ((''ABC'', Apr22), Num 100)],
           [(tk ''ABC'' 20240419 33300 5, 5), (tk ''ABC'' 20240419 33301 6, 11),
            (tk ''ABC'' 20240419 33302 7, 18)],
           [(tk ''ABC'' 20240422 33300 9, 9)],
           [((''ABC'', Apr19), None), ((''ABC'', Apr22), None)]))"
  by (simp add: run_analysis_def Let_def avg_sample analyze_intraday_data_eq open_ticks_sample tk_sel)
     (simp add: frames_sample store_results_def crossing_def avg_volume_of_def
        first_exceed_Cons first_exceed_Nil tk_sel)

theorem rolling_series_one_point_per_open_tick_witness:
  "sorts_by_Time sort_Time \<and>
   (\<exists>t \<in> set (intraday_data sample_state). market_open \<le> Time t) \<and>
   run_analysis sort_Date_desc sort_Time sample_state =
     (sample_state\<lparr>intraday_data :=
        [tk ''ABC'' 20240419 33302 7, tk ''ABC'' 20240419 33300 5, tk ''ABC'' 20240419 33301 6,
         tk ''ABC'' 20240422 33300 9]\<rparr>,
      Inr ([((''ABC'', Apr19), Num 100), ((''ABC'', Apr22), Num 100)],
           [(tk ''ABC'' 20240419 33300 5, 5), (tk ''ABC'' 20240419 33301 6, 11),
            (tk ''ABC'' 20240419 33302 7, 18)],
           [(tk ''ABC'' 20240422 33300 9, 9)],
           [((''ABC'', Apr19), None), ((''ABC'', Apr22), None)])) \<and>
   mset [tk ''ABC'' 20240419 33300 5, tk ''ABC'' 20240419 33301 6, tk ''ABC'' 20240419 33302 7] =
     mset (filter (\<lambda>t. iStock_Name t = ''ABC'' \<and> iDate t = Timestamp Apr19 \<and> market_open \<le> Time t)
             (intraday_data sample_state)) \<and>
   length (filter (\<lambda>t. iStock_Name t = ''ABC'' \<and> iDate t = Timestamp Apr19 \<and> market_open \<le> Time t)
             (intraday_data sample_state)) = 3"
proof -
  have h: "\<exists>t \<in> set (intraday_data sample_state). market_open \<le> Time t"
    by (simp add: sample_state_def init_def tk_sel market_open_def)
  from rolling_series_one_point_per_open_tick[OF sorts_by_Time_sort_Time h, of sort_Date_desc]
  obtain r19 r22 results where
    run: "run_analysis sort_Date_desc sort_Time sample_state =
      (sample_state\<lparr>intraday_data :=
         filter (\<lambda>t. market_open \<le> Time t) (intraday_data sample_state)\<rparr>,
       Inr (get_avg_volumes sort_Date_desc sample_state, r19, r22, results))"
    and rows: "\<And>s d. mset (map fst (filter (\<lambda>r. iStock_Name (fst r) = s)
                               (if d = Apr19 then r19 else r22))) =
                mset (filter (\<lambda>t. iStock_Name t = s \<and> iDate t = Timestamp d \<and>
                                   market_open \<le> Time t) (intraday_data sample_state))"
    by blast
  have r19: "r19 = [(tk ''ABC'' 20240419 33300 5, 5), (tk ''ABC'' 20240419 33301 6, 11),
            (tk ''ABC'' 20240419 33302 7, 18)]"
    using run unfolding run_sample by simp
  have m: "mset [tk ''ABC'' 20240419 33300 5, tk ''ABC'' 20240419 33301 6, tk ''ABC'' 20240419 33302 7] =
     mset (filter (\<lambda>t. iStock_Name t = ''ABC'' \<and> iDate t = Timestamp Apr19 \<and> market_open \<le> Time t)
             (intraday_data sample_state))"
    using rows[of "''ABC''" Apr19] unfolding r19 by (simp add: tk_sel)
  from mset_eq_length[OF this]
  have l: "length (filter (\<lambda>t. iStock_Name t = ''ABC'' \<and> iDate t = Timestamp Apr19 \<and> market_open \<le> Time t)
             (intraday_data sample_state)) = 3"
    by simp
  show ?thesis
    using sorts_by_Time_sort_Time h run_sample m l by (intro conjI)
qed

section \<open>The 30-day average\<close>

lemma calculate_30_day_avg_eq:
  "calculate_30_day_avg srt self s target =
     mean (map Volume (take 30 (srt (prior_records self s target))))"
  by (simp add: calculate_30_day_avg_def prior_records_def Let_def)


lemma sorts_by_Date_desc_mset: "sorts_by_Date_desc srt \<Longrightarrow> mset (srt xs) = mset xs"
  by (simp add: sorts_by_Date_desc_def)





















section \<open>The threshold without daily history, and dates without ticks\<close>

text \<open>
  The average stored for a key and the threshold the scan uses. A stock of the daily table
  always has its two keys in \<^verbatim>\<open>avg_volumes\<close>, with NaN as the value when it has no record
  before the date; the default 0 of \<^verbatim>\<open>avg_volumes.get\<close> is used only for a stock that the
  daily table does not have. A NaN threshold is never exceeded.
\<close>

lemma get_avg_volumes_eq:
  "get_avg_volumes srt self =
     store_results (\<lambda>key. calculate_30_day_avg srt self (fst key) (Timestamp (snd key)))
       (unique (map Stock_Name (daily_data self))) []"
  by (simp add: get_avg_volumes_def store_results_def)

lemma map_of_get_avg_volumes:
  "map_of (get_avg_volumes srt self) (s, d) =
     (if s \<in> Stock_Name ` set (daily_data self)
      then Some (calculate_30_day_avg srt self s (Timestamp d)) else None)"
  by (simp add: get_avg_volumes_eq map_of_store_results unique_def)

lemma no_prior_records_NaN:
  assumes "sorts_by_Date_desc srt"
    and "\<forall>r \<in> set (daily_data self). Stock_Name r = s \<longrightarrow> target \<le> Date r"
  shows "calculate_30_day_avg srt self s target = NaN"
proof -
  have "prior_records self s target = []"
    using assms(2) by (auto simp: prior_records_def filter_empty_conv)
  moreover have "mset (srt []) = mset ([] :: daily_record list)"
    by (rule sorts_by_Date_desc_mset[OF assms(1)])
  ultimately show ?thesis
    by (simp add: calculate_30_day_avg_eq mean_def)
qed

lemma first_exceed_NaN: "first_exceed rows NaN = None"
  by (simp add: first_exceed_None_iff)

lemma stored_NaN_never_crossed:
  assumes "sorts_by_Date_desc dsrt"
    and "s \<in> Stock_Name ` set (daily_data self)"
    and "\<forall>r \<in> set (daily_data self). Stock_Name r = s \<longrightarrow> Timestamp d \<le> Date r"
  shows "avg_volume_of (get_avg_volumes dsrt self) (s, d) = NaN"
    and "crossing tsrt (get_avg_volumes dsrt self) tbl (s, d) = None"
proof -
  show a: "avg_volume_of (get_avg_volumes dsrt self) (s, d) = NaN"
    using assms(2) no_prior_records_NaN[OF assms(1,3)]
    by (simp add: avg_volume_of_def map_of_get_avg_volumes)
  show "crossing tsrt (get_avg_volumes dsrt self) tbl (s, d) = None"
    by (simp add: crossing_def a first_exceed_NaN)
qed

lemma unknown_stock_zero_threshold:
  "s \<notin> Stock_Name ` set (daily_data self) \<Longrightarrow>
     avg_volume_of (get_avg_volumes dsrt self) (s, d) = Num 0"
  by (simp add: avg_volume_of_def map_of_get_avg_volumes)

text \<open>
  When the analysis raises, and what it gives for a stock and date without ticks when it
  returns: no row in the rolling table of the date, and a result that is \<open>None\<close>
  (or no entry at all, for a stock without any tick at or after the market open).
\<close>

lemma analysis_raises_iff:
  "snd (analyze_intraday_data srt self avg_volumes) = Inl ValueError \<longleftrightarrow>
     (\<forall>t \<in> set (intraday_data self). Time t < market_open)"
proof -
  have "open_ticks self = [] \<longleftrightarrow> (\<forall>t \<in> set (intraday_data self). Time t < market_open)"
    by (auto simp: open_ticks_def filter_empty_conv not_le)
  then show ?thesis
    by (simp add: analyze_intraday_data_eq)
qed

lemma no_ticks_on_date_when_returning:
  assumes "sorts_by_Time srt"
    and "analyze_intraday_data srt self avg_volumes = (self', Inr (r19, r22, results))"
    and "\<forall>t \<in> set (intraday_data self).
           \<not> (iStock_Name t = s \<and> iDate t = Timestamp d \<and> market_open \<le> Time t)"
  shows "filter (\<lambda>r. iStock_Name (fst r) = s) (if d = Apr19 then r19 else r22) = []"
    and "map_of results (s, d) = None \<or> map_of results (s, d) = Some None"
proof -
  let ?tbl = "open_ticks self"
  let ?ks = "sort (remdups (map iStock_Name ?tbl))"
  have "filter (\<lambda>t. iDate t = Timestamp d) (filter (\<lambda>t. iStock_Name t = s) ?tbl) = []"
    using assms(3) by (auto simp: open_ticks_def filter_empty_conv)
  then have "map fst (stock_frame srt ?tbl d s) = []"
    by (simp add: fst_stock_frame sorts_by_Time_Nil[OF assms(1)])
  then have frame: "stock_frame srt ?tbl d s = []"
    by simp
  have tables: "r19 = concat (map (stock_frame srt ?tbl Apr19) ?ks)"
      "r22 = concat (map (stock_frame srt ?tbl Apr22) ?ks)"
      "results = store_results (crossing srt avg_volumes ?tbl) ?ks []"
    using assms(2) by (simp_all add: analyze_intraday_data_eq split: if_splits)
  have "(if d = Apr19 then r19 else r22) = concat (map (stock_frame srt ?tbl d) ?ks)"
    using tables by (cases d) simp_all
  then show "filter (\<lambda>r. iStock_Name (fst r) = s) (if d = Apr19 then r19 else r22) = []"
    by (simp only: filter_rolling_table[OF assms(1)] frame)
  have "crossing srt avg_volumes ?tbl (s, d) = None"
    by (simp add: crossing_def frame first_exceed_Nil)
  then show "map_of results (s, d) = None \<or> map_of results (s, d) = Some None"
    unfolding tables(3) by (simp add: map_of_store_results)
qed

section \<open>Ticks of equal time\<close>

text \<open>
  The order among ticks of equal time is not fixed by the contract of the sort: the sort
  that keeps the arrival order of equal times and the sort that reverses it both meet it.
  The program asks \<^verbatim>\<open>sort_values\<close> for no particular algorithm, so the order of equal
  times in a frame is whatever the library's default algorithm leaves.
\<close>

lemma sorts_by_Time_rev_first: "sorts_by_Time (\<lambda>xs. sort_key Time (rev xs))"
proof -
  have "sorted_wrt (\<lambda>a b. Time a \<le> Time b) (sort_key Time (rev ys))" for ys :: "tick list"
    using sorted_sort_key[of Time "rev ys"] by (simp add: sorted_map)
  then show ?thesis
    by (simp add: sorts_by_Time_def)
qed

lemma sort_contract_leaves_ties_open:
  "sorts_by_Time sort_Time \<and> sorts_by_Time (\<lambda>xs. sort_key Time (rev xs)) \<and>
   sort_Time [tk ''ABC'' 20240419 33300 5, tk ''ABC'' 20240419 33300 6] =
     [tk ''ABC'' 20240419 33300 5, tk ''ABC'' 20240419 33300 6] \<and>
   sort_key Time (rev [tk ''ABC'' 20240419 33300 5, tk ''ABC'' 20240419 33300 6]) =
     [tk ''ABC'' 20240419 33300 6, tk ''ABC'' 20240419 33300 5]"
  using sorts_by_Time_sort_Time sorts_by_Time_rev_first
  by (simp add: sort_Time_def tk_sel)

end
